theory Spec2Isabelle
  imports Main "HOL-Library.AList"
begin

section \<open>The execution tracker of \<^verbatim>\<open>src/main/src/services/executionTracker.ts\<close>\<close>

text \<open>
  The class \<^verbatim>\<open>ExecutionTracker\<close> brackets one prompt execution of a session: it records the
  commit hash at the start, and at the end drives the commit policy, captures a diff,
  persists it and emits an event. Everything it does beyond its own registry goes through
  three collaborators (the session manager, the git diff manager and the commit manager) and
  through \<^verbatim>\<open>JSON.parse\<close>. None of them is part of the file; they are parameters of the model.
  Each collaborator call reads and changes an outside world of type \<open>'w\<close> and either returns
  a value or throws. The model keeps a log of the collaborator calls with their outcomes, in
  call order, so that "is invoked", "exactly once" and "before" are statements about that log.

  Not modelled: the logger and \<^verbatim>\<open>console.log\<close> (no effect on the tracker), the timestamps of the
  output messages, listeners of emitted events (an emit appends to the list of emitted events),
  and the interleaving of two asynchronous calls (each call runs to its end).
\<close>

subsection \<open>Data\<close>

text \<open>A thrown JavaScript value; the tracker only passes it on.\<close>

datatype Error = Thrown string

text \<open>\<^verbatim>\<open>interface ExecutionContext\<close>, lines 12-19. Optional fields are options.\<close>

record ExecutionContext =
  sessionId :: string
  worktreePath :: string
  promptMarkerId :: "int option"
  beforeCommitHash :: string
  executionSequence :: int
  prompt :: "string option"

text \<open>The commit mode \<^verbatim>\<open>'structured' | 'checkpoint' | 'disabled'\<close>.\<close>

datatype CommitMode = Structured | Checkpoint | Disabled

fun modeName :: "CommitMode \<Rightarrow> string" where
  "modeName Structured = ''structured''"
| "modeName Checkpoint = ''checkpoint''"
| "modeName Disabled = ''disabled''"

text \<open>
  A value returned by \<^verbatim>\<open>JSON.parse\<close>. An object is the list of its properties in insertion
  order. Numbers are only carried along.
\<close>

datatype json =
    JNull
  | JBool bool
  | JNum int
  | JStr string
  | JArr "json list"
  | JObj "(string \<times> json) list"

text \<open>
  \<^verbatim>\<open>CommitModeSettings\<close> is an object \<open>{mode, checkpointPrefix?, ...}\<close>. Its declaration is in
  \<^verbatim>\<open>shared/types\<close>; since the parsed settings are spread into it unchecked, the model keeps it
  as a property list.
\<close>

type_synonym CommitModeSettings = "(string \<times> json) list"

text \<open>The part of a session record that \<^verbatim>\<open>endExecution\<close> reads (lines 88-108).\<close>

record Session =
  commitMode :: "CommitMode option"
  commitModeSettings :: "string option"
  autoCommit :: "bool option"

text \<open>The result \<open>{success, commitHash?, error?}\<close> of the two commit manager calls.\<close>

record CommitResult =
  success :: bool
  commitHash :: "string option"
  error :: "string option"

text \<open>\<^verbatim>\<open>GitDiffResult\<close> of the git diff manager, as lines 244-250 and 320-330 use it.\<close>

record DiffStats =
  additions :: int
  deletions :: int
  filesChanged :: int

record GitDiffResult =
  diff :: string
  stats :: DiffStats
  changedFiles :: "string list"
  beforeHash :: "string option"
  afterHash :: "string option"

text \<open>
  \<^verbatim>\<open>CreateExecutionDiffData\<close> (lines 240-251), and the stored record, which has the same columns
  and the assigned id (lines 256, 264, 314-329). A column that may be null is an option.
\<close>

record CreateExecutionDiffData =
  session_id :: string
  prompt_marker_id :: "int option"
  execution_sequence :: int
  git_diff :: "string option"
  files_changed :: "string list option"
  stats_additions :: int
  stats_deletions :: int
  stats_files_changed :: int
  before_commit_hash :: "string option"
  after_commit_hash :: "string option"

record ExecutionDiff = CreateExecutionDiffData +
  id' :: int

text \<open>
  The \<open>data\<close> of an output event handed to \<^verbatim>\<open>addSessionOutput\<close> (lines 124-131, 143-150,
  160-166, 187-194, 202-209). The wrapper \<open>{type: 'json', data, timestamp}\<close> is the same in
  all five places and is left out, as is the timestamp inside.
\<close>

record OutputMessage =
  om_type :: string
  om_subtype :: string
  om_mode :: CommitMode
  om_error :: "string option"
  om_commit_hash :: "string option"
  om_message :: string

text \<open>The three events of the tracker with their payloads.\<close>

datatype Event =
    execution_started string int
  | execution_completed string int int DiffStats
  | execution_cancelled string int

text \<open>One collaborator call: its arguments and how it ended (\<open>Inl\<close>: it threw).\<close>

datatype Call =
    GetNextExecutionSequence string "Error + int"
  | GetSession string "Error + Session option"
  | AddSessionOutput string OutputMessage "Error + unit"
  | CreateExecutionDiff CreateExecutionDiffData "Error + ExecutionDiff"
  | GetExecutionDiffs string "Error + ExecutionDiff list"
  | GetCurrentCommitHash string "Error + string"
  | CaptureWorkingDirectoryDiff string "Error + GitDiffResult"
  | CaptureCommitDiff string string string "Error + GitDiffResult"
  | CombineDiffs "GitDiffResult list" "Error + GitDiffResult"
  | HandlePostPromptCommit string string CommitModeSettings "string option" int "Error + CommitResult"
  | WaitForStructuredCommit string string int "Error + CommitResult"

text \<open>
  The collaborators. \<open>sm_\<close> is \<^verbatim>\<open>this.sessionManager\<close>, \<open>gdm_\<close> is \<^verbatim>\<open>this.gitDiffManager\<close>,
  \<open>cm_\<close> is the imported \<^verbatim>\<open>commitManager\<close>. \<^verbatim>\<open>JSON.parse\<close> returns \<open>None\<close> where it throws a
  \<^verbatim>\<open>SyntaxError\<close>.
\<close>

record 'w Collaborators =
  sm_getNextExecutionSequence :: "string \<Rightarrow> 'w \<Rightarrow> (Error + int) \<times> 'w"
  sm_getSession :: "string \<Rightarrow> 'w \<Rightarrow> (Error + Session option) \<times> 'w"
  sm_addSessionOutput :: "string \<Rightarrow> OutputMessage \<Rightarrow> 'w \<Rightarrow> (Error + unit) \<times> 'w"
  sm_createExecutionDiff :: "CreateExecutionDiffData \<Rightarrow> 'w \<Rightarrow> (Error + ExecutionDiff) \<times> 'w"
  sm_getExecutionDiffs :: "string \<Rightarrow> 'w \<Rightarrow> (Error + ExecutionDiff list) \<times> 'w"
  gdm_getCurrentCommitHash :: "string \<Rightarrow> 'w \<Rightarrow> (Error + string) \<times> 'w"
  gdm_captureWorkingDirectoryDiff :: "string \<Rightarrow> 'w \<Rightarrow> (Error + GitDiffResult) \<times> 'w"
  gdm_captureCommitDiff :: "string \<Rightarrow> string \<Rightarrow> string \<Rightarrow> 'w \<Rightarrow> (Error + GitDiffResult) \<times> 'w"
  gdm_combineDiffs :: "GitDiffResult list \<Rightarrow> 'w \<Rightarrow> (Error + GitDiffResult) \<times> 'w"
  cm_handlePostPromptCommit ::
    "string \<Rightarrow> string \<Rightarrow> CommitModeSettings \<Rightarrow> string option \<Rightarrow> int \<Rightarrow> 'w \<Rightarrow> (Error + CommitResult) \<times> 'w"
  cm_waitForStructuredCommit :: "string \<Rightarrow> string \<Rightarrow> int \<Rightarrow> 'w \<Rightarrow> (Error + CommitResult) \<times> 'w"
  JSON_parse :: "string \<Rightarrow> json option"

text \<open>
  The tracker: its registry \<^verbatim>\<open>activeExecutions\<close> (line 22, a \<^verbatim>\<open>Map\<close> keyed by session id), the
  events emitted so far, the collaborator calls made so far, and the outside world.
\<close>

record 'w Tracker =
  activeExecutions :: "string \<rightharpoonup> ExecutionContext"
  emitted :: "Event list"
  calls :: "Call list"
  world :: 'w

definition newTracker :: "'w \<Rightarrow> 'w Tracker" where
  "newTracker w = \<lparr>activeExecutions = Map.empty, emitted = [], calls = [], world = w\<rparr>"

subsection \<open>Sequencing\<close>

text \<open>
  A step takes the tracker and returns a value or a thrown error, with the tracker it leaves.
  \<open>invoke\<close> is a collaborator call: it runs on the world and logs the call with its outcome.
  \<open>thenM\<close> is sequencing (\<^verbatim>\<open>await\<close> or \<^verbatim>\<open>;\<close>): a throw skips the rest.
\<close>

type_synonym ('w, 'a) step = "'w Tracker \<Rightarrow> (Error + 'a) \<times> 'w Tracker"

definition invoke :: "((Error + 'a) \<Rightarrow> Call) \<Rightarrow> ('w \<Rightarrow> (Error + 'a) \<times> 'w) \<Rightarrow> ('w, 'a) step" where
  "invoke tag f s =
     (case f (world s) of
        (r, w') \<Rightarrow> (r, s\<lparr>calls := calls s @ [tag r], world := w'\<rparr>))"

definition thenM :: "('w, 'a) step \<Rightarrow> ('a \<Rightarrow> ('w, 'b) step) \<Rightarrow> ('w, 'b) step" where
  "thenM m f s =
     (case m s of
        (Inl e, s') \<Rightarrow> (Inl e, s')
      | (Inr v, s') \<Rightarrow> f v s')"

definition returnM :: "'a \<Rightarrow> ('w, 'a) step" where
  "returnM v s = (Inr v, s)"

definition emit :: "Event \<Rightarrow> 'w Tracker \<Rightarrow> 'w Tracker" where
  "emit ev s = s\<lparr>emitted := emitted s @ [ev]\<rparr>"

text \<open>JavaScript truthiness of an optional string: \<^verbatim>\<open>undefined\<close>, \<^verbatim>\<open>null\<close> and \<^verbatim>\<open>''\<close> are falsy.\<close>

fun truthy :: "string option \<Rightarrow> bool" where
  "truthy None = False"
| "truthy (Some v) = (v \<noteq> [])"

subsection \<open>startExecution, cancelExecution and the queries\<close>

text \<open>
  Lines 35-62. The \<^verbatim>\<open>catch\<close> logs and rethrows, so a throw of either collaborator leaves
  the method at once with that error.
\<close>

definition startExecution ::
  "'w Collaborators \<Rightarrow> string \<Rightarrow> string \<Rightarrow> int option \<Rightarrow> string option \<Rightarrow> ('w, unit) step" where
  "startExecution env sid path marker prmpt =
     thenM (invoke (GetNextExecutionSequence sid) (sm_getNextExecutionSequence env sid))
       (\<lambda>seq.
     thenM (invoke (GetCurrentCommitHash path) (gdm_getCurrentCommitHash env path))
       (\<lambda>hash s.
          (Inr (),
           emit (execution_started sid seq)
             (s\<lparr>activeExecutions := (activeExecutions s)(sid \<mapsto>
                  \<lparr>sessionId = sid, worktreePath = path, promptMarkerId = marker,
                   beforeCommitHash = hash, executionSequence = seq, prompt = prmpt\<rparr>)\<rparr>))))"

text \<open>Lines 280-287.\<close>

definition cancelExecution :: "string \<Rightarrow> 'w Tracker \<Rightarrow> 'w Tracker" where
  "cancelExecution sid s =
     (case activeExecutions s sid of
        Some context \<Rightarrow>
          emit (execution_cancelled sid (executionSequence context))
            (s\<lparr>activeExecutions := (activeExecutions s)(sid := None)\<rparr>)
      | None \<Rightarrow> s)"

text \<open>Lines 292-294 and 299-301.\<close>

definition isTracking :: "string \<Rightarrow> 'w Tracker \<Rightarrow> bool" where
  "isTracking sid s = (activeExecutions s sid \<noteq> None)"

definition getExecutionContext :: "string \<Rightarrow> 'w Tracker \<Rightarrow> ExecutionContext option" where
  "getExecutionContext sid s = activeExecutions s sid"

subsection \<open>Commit mode resolution (endExecution, lines 81-109)\<close>

text \<open>Decimal digits of an index, for the property names of a spread array or string.\<close>

fun showNat :: "nat \<Rightarrow> string" where
  "showNat n =
     (if n < 10 then [char_of (48 + n)]
      else showNat (n div 10) @ [char_of (48 + n mod 10)])"

text \<open>
  The own enumerable properties that an object spread \<^verbatim>\<open>...v\<close> copies: those of an object,
  the indexed elements of an array or string, nothing for a number, a boolean or \<^verbatim>\<open>null\<close>.
\<close>

fun ownProperties :: "json \<Rightarrow> (string \<times> json) list" where
  "ownProperties (JObj kvs) = kvs"
| "ownProperties (JArr xs) = zip (map showNat [0..<length xs]) xs"
| "ownProperties (JStr cs) = zip (map showNat [0..<length cs]) (map (\<lambda>c. JStr [c]) cs)"
| "ownProperties v = []"

text \<open>\<^verbatim>\<open>{...target, ...v}\<close>: each property of \<open>v\<close> is assigned in turn, a later one wins.\<close>

definition spread :: "(string \<times> json) list \<Rightarrow> json \<Rightarrow> (string \<times> json) list" where
  "spread target v = fold (\<lambda>(k, x). AList.update k x) (ownProperties v) target"

text \<open>Lines 83-86.\<close>

definition defaultSettings :: CommitModeSettings where
  "defaultSettings = [(''mode'', JStr ''checkpoint''), (''checkpointPrefix'', JStr ''checkpoint: '')]"

text \<open>\<^verbatim>\<open>settings.mode = commitMode\<close> and the trailing \<^verbatim>\<open>mode: commitMode\<close> of line 98.\<close>

definition setMode :: "CommitMode \<Rightarrow> CommitModeSettings \<Rightarrow> CommitModeSettings" where
  "setMode m settings = AList.update ''mode'' (JStr (modeName m)) settings"

text \<open>
  Lines 82-109, with \<open>session\<close> the value of \<^verbatim>\<open>getSession\<close> (\<open>None\<close>: no such session). The
  tests \<^verbatim>\<open>session?.commitMode\<close> and \<^verbatim>\<open>session.commitModeSettings\<close> are truthiness tests; the
  \<^verbatim>\<open>catch\<close> of line 100 only logs.
\<close>

definition resolveCommitMode ::
  "(string \<Rightarrow> json option) \<Rightarrow> Session option \<Rightarrow> CommitMode \<times> CommitModeSettings" where
  "resolveCommitMode parse session =
     (case (case session of None \<Rightarrow> None | Some x \<Rightarrow> commitMode x) of
        Some m \<Rightarrow>
          (let settings = setMode m defaultSettings in
           case (case session of None \<Rightarrow> None | Some x \<Rightarrow> commitModeSettings x) of
             None \<Rightarrow> (m, settings)
           | Some text \<Rightarrow>
               if text = [] then (m, settings)
               else (case parse text of
                       Some parsedSettings \<Rightarrow> (m, setMode m (spread settings parsedSettings))
                     | None \<Rightarrow> (m, settings)))
      | None \<Rightarrow>
          (case (case session of None \<Rightarrow> None | Some x \<Rightarrow> autoCommit x) of
             Some b \<Rightarrow>
               (let m = (if b then Checkpoint else Disabled) in (m, setMode m defaultSettings))
           | None \<Rightarrow> (Checkpoint, defaultSettings)))"

subsection \<open>The output messages\<close>

definition commitErrorMessage :: "CommitMode \<Rightarrow> string option \<Rightarrow> OutputMessage" where
  "commitErrorMessage m err =
     \<lparr>om_type = ''system'', om_subtype = ''autocommit_error'', om_mode = m, om_error = err,
      om_commit_hash = None,
      om_message = ''Failed to create commit during Claude Code execution. Changes remain uncommitted. You may need to fix the issues and commit manually.''\<rparr>"

definition commitSuccessMessage :: "string option \<Rightarrow> OutputMessage" where
  "commitSuccessMessage h =
     \<lparr>om_type = ''system'', om_subtype = ''autocommit_success'', om_mode = Checkpoint,
      om_error = None, om_commit_hash = h,
      om_message = ''Checkpoint commit created successfully. Changes have been automatically committed during execution.''\<rparr>"

definition structuredModeMessage :: OutputMessage where
  "structuredModeMessage =
     \<lparr>om_type = ''system'', om_subtype = ''autocommit_mode'', om_mode = Structured,
      om_error = None, om_commit_hash = None,
      om_message = ''Structured mode active. Claude will handle commits when appropriate.''\<rparr>"

definition timeoutMessage :: "string option \<Rightarrow> OutputMessage" where
  "timeoutMessage err =
     \<lparr>om_type = ''system'', om_subtype = ''autocommit_timeout'', om_mode = Structured,
      om_error = Some (case err of
                         Some e \<Rightarrow> if e \<noteq> [] then e else ''Timeout waiting for commit''
                       | None \<Rightarrow> ''Timeout waiting for commit''),
      om_commit_hash = None,
      om_message = ''Claude did not create a commit within the expected timeframe. Claude may have chosen not to commit, or may need more time.''\<rparr>"

definition claudeCommitMessage :: "string option \<Rightarrow> OutputMessage" where
  "claudeCommitMessage h =
     \<lparr>om_type = ''system'', om_subtype = ''autocommit_claude_success'', om_mode = Structured,
      om_error = None, om_commit_hash = h,
      om_message = ''Claude successfully created a commit according to your structured mode settings.''\<rparr>"

definition addOutput :: "'w Collaborators \<Rightarrow> string \<Rightarrow> OutputMessage \<Rightarrow> ('w, unit) step" where
  "addOutput env sid msg = invoke (AddSessionOutput sid msg) (sm_addSessionOutput env sid msg)"

subsection \<open>endExecution (lines 67-275)\<close>

text \<open>Lines 122-174: what is reported after \<^verbatim>\<open>handlePostPromptCommit\<close> has returned.\<close>

definition reportCommitResult ::
  "'w Collaborators \<Rightarrow> string \<Rightarrow> CommitMode \<Rightarrow> CommitResult \<Rightarrow> ('w, unit) step" where
  "reportCommitResult env sid m commitResult =
     (if \<not> success commitResult \<and> truthy (error commitResult)
      then addOutput env sid (commitErrorMessage m (error commitResult))
      else if success commitResult \<and> m \<noteq> Disabled
      then (if m = Checkpoint then addOutput env sid (commitSuccessMessage (commitHash commitResult))
            else if m = Structured then addOutput env sid structuredModeMessage
            else returnM ())
      else returnM ())"

text \<open>Lines 176-217: the bounded wait of structured mode and what is reported after it.\<close>

definition awaitStructuredCommit ::
  "'w Collaborators \<Rightarrow> string \<Rightarrow> ExecutionContext \<Rightarrow> CommitMode \<Rightarrow> ('w, unit) step" where
  "awaitStructuredCommit env sid context m =
     (if m = Structured
      then thenM (invoke (WaitForStructuredCommit sid (worktreePath context) 5000)
                    (cm_waitForStructuredCommit env sid (worktreePath context) 5000))
             (\<lambda>structuredCommitResult.
                if \<not> success structuredCommitResult
                then addOutput env sid (timeoutMessage (error structuredCommitResult))
                else if truthy (commitHash structuredCommitResult)
                then addOutput env sid (claudeCommitMessage (commitHash structuredCommitResult))
                else returnM ())
      else returnM ())"

text \<open>Lines 219-237: the hash is read again and decides which diff is captured.\<close>

definition captureExecutionDiff ::
  "'w Collaborators \<Rightarrow> ExecutionContext \<Rightarrow> ('w, GitDiffResult) step" where
  "captureExecutionDiff env context =
     thenM (invoke (GetCurrentCommitHash (worktreePath context))
              (gdm_getCurrentCommitHash env (worktreePath context)))
       (\<lambda>afterCommitHash.
          if afterCommitHash = beforeCommitHash context
          then invoke (CaptureWorkingDirectoryDiff (worktreePath context))
                 (gdm_captureWorkingDirectoryDiff env (worktreePath context))
          else invoke (CaptureCommitDiff (worktreePath context) (beforeCommitHash context) afterCommitHash)
                 (gdm_captureCommitDiff env (worktreePath context) (beforeCommitHash context)
                    afterCommitHash))"

text \<open>Lines 240-251.\<close>

definition diffData :: "string \<Rightarrow> ExecutionContext \<Rightarrow> GitDiffResult \<Rightarrow> CreateExecutionDiffData" where
  "diffData sid context executionDiff =
     \<lparr>session_id = sid,
      prompt_marker_id = promptMarkerId context,
      execution_sequence = executionSequence context,
      git_diff = Some (diff executionDiff),
      files_changed = Some (changedFiles executionDiff),
      stats_additions = additions (stats executionDiff),
      stats_deletions = deletions (stats executionDiff),
      stats_files_changed = filesChanged (stats executionDiff),
      before_commit_hash = beforeHash executionDiff,
      after_commit_hash = afterHash executionDiff\<rparr>"

text \<open>Lines 239-268: persist, emit \<^verbatim>\<open>execution-completed\<close>, release the context.\<close>

definition persistAndComplete ::
  "'w Collaborators \<Rightarrow> string \<Rightarrow> ExecutionContext \<Rightarrow> GitDiffResult \<Rightarrow> ('w, unit) step" where
  "persistAndComplete env sid context executionDiff =
     thenM (invoke (CreateExecutionDiff (diffData sid context executionDiff))
              (sm_createExecutionDiff env (diffData sid context executionDiff)))
       (\<lambda>createdDiff s.
          (Inr (),
           (emit (execution_completed sid (executionSequence context) (id' createdDiff)
                    (stats executionDiff)) s)
             \<lparr>activeExecutions := (activeExecutions s)(sid := None)\<rparr>))"

text \<open>The body of the \<^verbatim>\<open>try\<close> once a context was found (lines 75-268).\<close>

definition endExecution_try ::
  "'w Collaborators \<Rightarrow> string \<Rightarrow> ExecutionContext \<Rightarrow> ('w, unit) step" where
  "endExecution_try env sid context =
     thenM (invoke (GetSession sid) (sm_getSession env sid))
       (\<lambda>session.
          case resolveCommitMode (JSON_parse env) session of
            (m, settings) \<Rightarrow>
     thenM (invoke (HandlePostPromptCommit sid (worktreePath context) settings (prompt context)
                      (executionSequence context))
              (cm_handlePostPromptCommit env sid (worktreePath context) settings (prompt context)
                 (executionSequence context)))
       (\<lambda>commitResult.
     thenM (reportCommitResult env sid m commitResult)
       (\<lambda>_.
     thenM (awaitStructuredCommit env sid context m)
       (\<lambda>_.
     thenM (captureExecutionDiff env context)
       (\<lambda>executionDiff. persistAndComplete env sid context executionDiff)))))"

text \<open>
  Lines 67-275. Without a context the method returns at line 72. The \<^verbatim>\<open>catch\<close> (lines 270-274)
  deletes the context and rethrows.
\<close>

definition endExecution :: "'w Collaborators \<Rightarrow> string \<Rightarrow> ('w, unit) step" where
  "endExecution env sid s =
     (case activeExecutions s sid of
        None \<Rightarrow> (Inr (), s)
      | Some context \<Rightarrow>
          (case endExecution_try env sid context s of
             (Inl e, s') \<Rightarrow> (Inl e, s'\<lparr>activeExecutions := (activeExecutions s')(sid := None)\<rparr>)
           | (Inr u, s') \<Rightarrow> (Inr u, s')))"

subsection \<open>getCombinedDiff (lines 306-335)\<close>

text \<open>Lines 320-330. The filter of line 319 has left only records with a diff text.\<close>

definition toGitDiffResult :: "ExecutionDiff \<Rightarrow> GitDiffResult" where
  "toGitDiffResult exec =
     \<lparr>diff = (case git_diff exec of Some d \<Rightarrow> d | None \<Rightarrow> []),
      stats = \<lparr>additions = stats_additions exec, deletions = stats_deletions exec,
               filesChanged = stats_files_changed exec\<rparr>,
      changedFiles = (case files_changed exec of Some fs \<Rightarrow> fs | None \<Rightarrow> []),
      beforeHash = before_commit_hash exec,
      afterHash = after_commit_hash exec\<rparr>"

text \<open>Lines 312-330: the records that are combined. \<open>None\<close> is an omitted \<^verbatim>\<open>executionIds\<close>.\<close>

definition selectDiffs :: "ExecutionDiff list \<Rightarrow> int list option \<Rightarrow> GitDiffResult list" where
  "selectDiffs executions executionIds =
     (let filteredExecutions =
            (case executionIds of
               Some ids \<Rightarrow>
                 if length ids > 0 then filter (\<lambda>exec. id' exec \<in> set ids) executions
                 else executions
             | None \<Rightarrow> executions)
      in map toGitDiffResult (filter (\<lambda>exec. truthy (git_diff exec)) filteredExecutions))"

definition getCombinedDiff ::
  "'w Collaborators \<Rightarrow> string \<Rightarrow> int list option \<Rightarrow> ('w, GitDiffResult) step" where
  "getCombinedDiff env sid executionIds =
     thenM (invoke (GetExecutionDiffs sid) (sm_getExecutionDiffs env sid))
       (\<lambda>executions.
          invoke (CombineDiffs (selectDiffs executions executionIds))
            (gdm_combineDiffs env (selectDiffs executions executionIds)))"

subsection \<open>A concrete world\<close>

text \<open>
  A small world on which the tracker can be run: one worktree with a current commit, files
  with uncommitted changes, a table of stored diffs, and an agent that may commit during the
  structured wait. An empty current commit stands for a path that is no repository. The
  collaborators below are stand-ins acting on it: the commit manager commits the edited
  files in checkpoint mode (unless a hook rejects the commit) and does nothing in the other
  modes, the wait reports the agent's commit or a timeout, the hash read throws where there
  is no repository, and the combination of diffs concatenates texts, sums the stats and
  unions the files. The theorems that follow hold for any collaborators and are instantiated
  with these.
\<close>

record World =
  w_head :: string
  w_dirty :: "string list"
  w_committed :: "string list"
  w_store :: "ExecutionDiff list"
  w_seq :: int
  w_session :: "Session option"
  w_hookFails :: bool
  w_agent :: "string option"

definition demoPayload :: string where
  "demoPayload =
     ''{'' @ [CHR 0x22] @ ''checkpointPrefix'' @ [CHR 0x22] @ '':'' @ [CHR 0x22] @ ''wip: '' @ [CHR 0x22] @ ''}''"

text \<open>A parser that knows the empty object and one payload, and rejects everything else.\<close>

definition demoParse :: "string \<Rightarrow> json option" where
  "demoParse text =
     (if text = ''{}'' then Some (JObj [])
      else if text = demoPayload then Some (JObj [(''checkpointPrefix'', JStr ''wip: '')])
      else None)"

definition demoWorkingDiff :: "World \<Rightarrow> GitDiffResult" where
  "demoWorkingDiff w =
     \<lparr>diff = concat (map (\<lambda>f. ''M '' @ f @ ''; '') (w_dirty w)),
      stats = \<lparr>additions = int (length (w_dirty w)), deletions = 0,
               filesChanged = int (length (w_dirty w))\<rparr>,
      changedFiles = w_dirty w,
      beforeHash = Some (w_head w),
      afterHash = Some (w_head w)\<rparr>"

definition demoCommitDiff :: "string \<Rightarrow> string \<Rightarrow> World \<Rightarrow> GitDiffResult" where
  "demoCommitDiff fromHash toHash w =
     \<lparr>diff = concat (map (\<lambda>f. ''M '' @ f @ ''; '') (w_committed w)),
      stats = \<lparr>additions = int (length (w_committed w)), deletions = 0,
               filesChanged = int (length (w_committed w))\<rparr>,
      changedFiles = w_committed w,
      beforeHash = Some fromHash,
      afterHash = Some toHash\<rparr>"

definition demoCombine :: "GitDiffResult list \<Rightarrow> GitDiffResult" where
  "demoCombine ds =
     \<lparr>diff = concat (map diff ds),
      stats = \<lparr>additions = sum_list (map (\<lambda>d. additions (stats d)) ds),
               deletions = sum_list (map (\<lambda>d. deletions (stats d)) ds),
               filesChanged = sum_list (map (\<lambda>d. filesChanged (stats d)) ds)\<rparr>,
      changedFiles = remdups (concat (map changedFiles ds)),
      beforeHash = None,
      afterHash = None\<rparr>"

definition demoStore :: "CreateExecutionDiffData \<Rightarrow> World \<Rightarrow> ExecutionDiff" where
  "demoStore d w =
     \<lparr>session_id = session_id d, prompt_marker_id = prompt_marker_id d,
      execution_sequence = execution_sequence d, git_diff = git_diff d,
      files_changed = files_changed d, stats_additions = stats_additions d,
      stats_deletions = stats_deletions d, stats_files_changed = stats_files_changed d,
      before_commit_hash = before_commit_hash d, after_commit_hash = after_commit_hash d,
      id' = int (length (w_store w)) + 1\<rparr>"

definition demoCommit :: "CommitModeSettings \<Rightarrow> World \<Rightarrow> (Error + CommitResult) \<times> World" where
  "demoCommit settings w =
     (if map_of settings ''mode'' = Some (JStr ''checkpoint'')
      then (if w_hookFails w
            then (Inr \<lparr>success = False, commitHash = None, error = Some ''pre-commit hook failed''\<rparr>, w)
            else if w_dirty w = []
            then (Inr \<lparr>success = True, commitHash = None, error = None\<rparr>, w)
            else (Inr \<lparr>success = True, commitHash = Some ''b2'', error = None\<rparr>,
                  w\<lparr>w_head := ''b2'', w_committed := w_dirty w, w_dirty := []\<rparr>))
      else (Inr \<lparr>success = True, commitHash = None, error = None\<rparr>, w))"

definition demoWait :: "World \<Rightarrow> (Error + CommitResult) \<times> World" where
  "demoWait w =
     (case w_agent w of
        Some h \<Rightarrow>
          (Inr \<lparr>success = True, commitHash = Some h, error = None\<rparr>,
           w\<lparr>w_head := h, w_committed := w_dirty w, w_dirty := []\<rparr>)
      | None \<Rightarrow>
          (Inr \<lparr>success = False, commitHash = None, error = Some ''Timeout waiting for commit''\<rparr>, w))"

definition demoHash :: "World \<Rightarrow> (Error + string) \<times> World" where
  "demoHash w =
     (if w_head w = [] then (Inl (Thrown ''not a git repository''), w) else (Inr (w_head w), w))"

definition demoEnv :: "World Collaborators" where
  "demoEnv =
     \<lparr>sm_getNextExecutionSequence = (\<lambda>sid w. (Inr (w_seq w + 1), w\<lparr>w_seq := w_seq w + 1\<rparr>)),
      sm_getSession = (\<lambda>sid w. (Inr (w_session w), w)),
      sm_addSessionOutput = (\<lambda>sid msg w. (Inr (), w)),
      sm_createExecutionDiff = (\<lambda>d w. (Inr (demoStore d w), w\<lparr>w_store := w_store w @ [demoStore d w]\<rparr>)),
      sm_getExecutionDiffs = (\<lambda>sid w. (Inr (filter (\<lambda>exec. session_id exec = sid) (w_store w)), w)),
      gdm_getCurrentCommitHash = (\<lambda>path w. demoHash w),
      gdm_captureWorkingDirectoryDiff = (\<lambda>path w. (Inr (demoWorkingDiff w), w)),
      gdm_captureCommitDiff = (\<lambda>path fromHash toHash w. (Inr (demoCommitDiff fromHash toHash w), w)),
      gdm_combineDiffs = (\<lambda>ds w. (Inr (demoCombine ds), w)),
      cm_handlePostPromptCommit = (\<lambda>sid path settings prmpt seq w. demoCommit settings w),
      cm_waitForStructuredCommit = (\<lambda>sid path timeoutMs w. demoWait w),
      JSON_parse = demoParse\<rparr>"

definition demoWorld :: "Session option \<Rightarrow> string list \<Rightarrow> World" where
  "demoWorld session dirty =
     \<lparr>w_head = ''a1'', w_dirty = dirty, w_committed = [], w_store = [], w_seq = 0,
      w_session = session, w_hookFails = False, w_agent = None\<rparr>"

text \<open>A context as \<^verbatim>\<open>startExecution\<close> stores it for session \<open>s1\<close> at commit \<open>a1\<close>.\<close>

definition demoContext :: ExecutionContext where
  "demoContext =
     \<lparr>sessionId = ''s1'', worktreePath = ''/wt'', promptMarkerId = Some 7,
      beforeCommitHash = ''a1'', executionSequence = 1, prompt = Some ''fix the bug''\<rparr>"

definition demoActive :: "World \<Rightarrow> World Tracker" where
  "demoActive w = (newTracker w)\<lparr>activeExecutions := [''s1'' \<mapsto> demoContext]\<rparr>"

subsection \<open>Reading the call log\<close>

text \<open>The collaborator calls made between two tracker states.\<close>

definition callsSince :: "'w Tracker \<Rightarrow> 'w Tracker \<Rightarrow> Call list" where
  "callsSince s s' = drop (length (calls s)) (calls s')"

text \<open>The collaborator method that a call went to, and how the call ended.\<close>

datatype Method =
    M_getNextExecutionSequence
  | M_getSession
  | M_addSessionOutput
  | M_createExecutionDiff
  | M_getExecutionDiffs
  | M_getCurrentCommitHash
  | M_captureWorkingDirectoryDiff
  | M_captureCommitDiff
  | M_combineDiffs
  | M_handlePostPromptCommit
  | M_waitForStructuredCommit

fun methodOf :: "Call \<Rightarrow> Method" where
  "methodOf (GetNextExecutionSequence sid r) = M_getNextExecutionSequence"
| "methodOf (GetSession sid r) = M_getSession"
| "methodOf (AddSessionOutput sid msg r) = M_addSessionOutput"
| "methodOf (CreateExecutionDiff d r) = M_createExecutionDiff"
| "methodOf (GetExecutionDiffs sid r) = M_getExecutionDiffs"
| "methodOf (GetCurrentCommitHash path r) = M_getCurrentCommitHash"
| "methodOf (CaptureWorkingDirectoryDiff path r) = M_captureWorkingDirectoryDiff"
| "methodOf (CaptureCommitDiff path b a r) = M_captureCommitDiff"
| "methodOf (CombineDiffs ds r) = M_combineDiffs"
| "methodOf (HandlePostPromptCommit sid path settings p n r) = M_handlePostPromptCommit"
| "methodOf (WaitForStructuredCommit sid path t r) = M_waitForStructuredCommit"

abbreviation isOutput :: "Call \<Rightarrow> bool" where
  "isOutput c \<equiv> methodOf c = M_addSessionOutput"


abbreviation isCapture :: "Call \<Rightarrow> bool" where
  "isCapture c \<equiv> methodOf c = M_captureWorkingDirectoryDiff \<or> methodOf c = M_captureCommitDiff"

abbreviation isWait :: "Call \<Rightarrow> bool" where
  "isWait c \<equiv> methodOf c = M_waitForStructuredCommit"


abbreviation isHashRead :: "Call \<Rightarrow> bool" where
  "isHashRead c \<equiv> methodOf c = M_getCurrentCommitHash"







text \<open>
  The calls that the three middle phases of \<^verbatim>\<open>endExecution\<close> can make, with the outcome \<open>r\<close>
  of the phase: the report after the commit, the structured wait, and the diff capture.
  They are used to take a run apart in the proofs below.
\<close>

definition reportCalls :: "string \<Rightarrow> CommitMode \<Rightarrow> CommitResult \<Rightarrow> Error + unit \<Rightarrow> Call list \<Rightarrow> bool" where
  "reportCalls sid m cr r cs =
     (if \<not> success cr \<and> truthy (error cr)
      then cs = [AddSessionOutput sid (commitErrorMessage m (error cr)) r]
      else if success cr \<and> m = Checkpoint
      then cs = [AddSessionOutput sid (commitSuccessMessage (commitHash cr)) r]
      else if success cr \<and> m = Structured
      then cs = [AddSessionOutput sid structuredModeMessage r]
      else cs = [] \<and> r = Inr ())"

definition waitCalls :: "string \<Rightarrow> string \<Rightarrow> CommitMode \<Rightarrow> Error + unit \<Rightarrow> Call list \<Rightarrow> bool" where
  "waitCalls sid path m r cs =
     (if m = Structured
      then (\<exists>rw. case rw of
              Inl e \<Rightarrow> cs = [WaitForStructuredCommit sid path 5000 rw] \<and> r = Inl e
            | Inr wr \<Rightarrow>
                if \<not> success wr
                then cs = [WaitForStructuredCommit sid path 5000 rw,
                           AddSessionOutput sid (timeoutMessage (error wr)) r]
                else if truthy (commitHash wr)
                then cs = [WaitForStructuredCommit sid path 5000 rw,
                           AddSessionOutput sid (claudeCommitMessage (commitHash wr)) r]
                else cs = [WaitForStructuredCommit sid path 5000 rw] \<and> r = Inr ())
      else cs = [] \<and> r = Inr ())"

definition captureCalls :: "string \<Rightarrow> string \<Rightarrow> Error + GitDiffResult \<Rightarrow> Call list \<Rightarrow> bool" where
  "captureCalls path hash0 r cs =
     (\<exists>rh. case rh of
        Inl e \<Rightarrow> cs = [GetCurrentCommitHash path rh] \<and> r = Inl e
      | Inr h \<Rightarrow>
          cs = [GetCurrentCommitHash path rh,
                if h = hash0 then CaptureWorkingDirectoryDiff path r
                else CaptureCommitDiff path hash0 h r])"

subsection \<open>Sequences of calls\<close>

text \<open>
  The trackers that calls of the public methods can produce from a new one. Between two
  calls the world may change in any way (the agent edits and commits in the worktree).
\<close>

inductive reachable :: "'w Collaborators \<Rightarrow> 'w Tracker \<Rightarrow> bool" for env :: "'w Collaborators" where
  fresh: "reachable env (newTracker w)"
| started: "reachable env s \<Longrightarrow> startExecution env sid path marker prmpt s = (r, s') \<Longrightarrow> reachable env s'"
| ended: "reachable env s \<Longrightarrow> endExecution env sid s = (r, s') \<Longrightarrow> reachable env s'"
| cancelled: "reachable env s \<Longrightarrow> reachable env (cancelExecution sid s)"
| combined: "reachable env s \<Longrightarrow> getCombinedDiff env sid ids s = (g, s') \<Longrightarrow> reachable env s'"
| outside: "reachable env s \<Longrightarrow> reachable env (s\<lparr>world := w\<rparr>)"

subsection \<open>Some concrete trackers\<close>

text \<open>Session \<open>s1\<close> after \<^verbatim>\<open>startExecution\<close> in the clean world.\<close>

definition demoStarted :: "World Tracker" where
  "demoStarted =
     snd (startExecution demoEnv ''s1'' ''/wt'' (Some 7) (Some ''fix the bug'')
            (newTracker (demoWorld None [])))"

text \<open>An active execution whose worktree is no repository any more when its hash is read.\<close>

definition demoGone :: "World Tracker" where
  "demoGone = demoActive ((demoWorld None [])\<lparr>w_head := []\<rparr>)"





text \<open>An active execution of a session whose stored settings are not JSON.\<close>

definition demoMalformed :: "World Tracker" where
  "demoMalformed =
     demoActive (demoWorld (Some \<lparr>commitMode = Some Structured,
       commitModeSettings = Some ''{oops'', autoCommit = Some False\<rparr>) [])"



section \<open>Taking a run apart\<close>

text \<open>
  A step either throws in its first part or continues with the value of that part. Each phase
  leaves the registry and the emitted events alone and appends its calls to the log.
\<close>

lemma thenM_cases:
  assumes "thenM m f s = (r, s'')"
  obtains (Throws) e where "m s = (Inl e, s'')" "r = Inl e"
        | (Continues) v s' where "m s = (Inr v, s')" "f v s' = (r, s'')"
  using assms by (auto simp: thenM_def split: prod.splits sum.splits)

lemma invoke_log:
  assumes "invoke tag f s = (r, s')"
  shows "activeExecutions s' = activeExecutions s \<and> emitted s' = emitted s \<and>
         calls s' = calls s @ [tag r]"
  using assms by (auto simp: invoke_def split: prod.splits)

lemma addOutput_log:
  assumes "addOutput env sid msg s = (r, s')"
  shows "activeExecutions s' = activeExecutions s \<and> emitted s' = emitted s \<and>
         calls s' = calls s @ [AddSessionOutput sid msg r]"
  using assms invoke_log[of "AddSessionOutput sid msg" "sm_addSessionOutput env sid msg" s r s']
  by (simp add: addOutput_def)

lemma reportCommitResult_log:
  assumes "reportCommitResult env sid m cr s = (r, s')"
  shows "activeExecutions s' = activeExecutions s \<and> emitted s' = emitted s \<and>
         (\<exists>cs. calls s' = calls s @ cs \<and> reportCalls sid m cr r cs)"
  using assms
  by (cases m) (auto simp: reportCommitResult_def reportCalls_def returnM_def
      dest: addOutput_log split: if_splits)

lemma awaitStructuredCommit_log:
  assumes "awaitStructuredCommit env sid context m s = (r, s')"
  shows "activeExecutions s' = activeExecutions s \<and> emitted s' = emitted s \<and>
         (\<exists>cs. calls s' = calls s @ cs \<and> waitCalls sid (worktreePath context) m r cs)"
proof (cases "m = Structured")
  case False
  with assms show ?thesis
    by (simp add: awaitStructuredCommit_def waitCalls_def returnM_def)
next
  case True
  let ?w = "invoke (WaitForStructuredCommit sid (worktreePath context) 5000)
              (cm_waitForStructuredCommit env sid (worktreePath context) 5000)"
  from assms True obtain k where
    run: "thenM ?w k s = (r, s')" and
    k: "k = (\<lambda>structuredCommitResult.
                if \<not> success structuredCommitResult
                then addOutput env sid (timeoutMessage (error structuredCommitResult))
                else if truthy (commitHash structuredCommitResult)
                then addOutput env sid (claudeCommitMessage (commitHash structuredCommitResult))
                else returnM ())"
    by (simp add: awaitStructuredCommit_def)
  from run show ?thesis
  proof (cases rule: thenM_cases)
    case (Throws e)
    from invoke_log[OF Throws(1)] Throws(2) True show ?thesis
      by (auto simp: waitCalls_def intro!: exI[of _ "Inl e"])
  next
    case (Continues wr s1)
    note w = invoke_log[OF Continues(1)]
    from Continues(2) w True show ?thesis
      unfolding k
      by (auto simp: waitCalls_def returnM_def dest!: addOutput_log split: if_splits
          intro!: exI[of _ "Inr wr"])
  qed
qed

lemma captureExecutionDiff_log:
  assumes "captureExecutionDiff env context s = (r, s')"
  shows "activeExecutions s' = activeExecutions s \<and> emitted s' = emitted s \<and>
         (\<exists>cs. calls s' = calls s @ cs \<and>
            captureCalls (worktreePath context) (beforeCommitHash context) r cs)"
  using assms unfolding captureExecutionDiff_def
proof (cases rule: thenM_cases)
  case (Throws e)
  from invoke_log[OF Throws(1)] Throws(2) show ?thesis
    by (auto simp: captureCalls_def intro!: exI[of _ "Inl e"])
next
  case (Continues h s1)
  note w = invoke_log[OF Continues(1)]
  from Continues(2) w show ?thesis
    by (auto simp: captureCalls_def dest!: invoke_log split: if_splits
        intro!: exI[of _ "Inr h"])
qed


lemma callsSince_append: "calls s' = calls s @ cs \<Longrightarrow> callsSince s s' = cs"
  by (simp add: callsSince_def)

lemma persistAndComplete_log:
  assumes "persistAndComplete env sid context g s = (r, s')"
  shows "\<exists>rc. calls s' = calls s @ [CreateExecutionDiff (diffData sid context g) rc] \<and>
           (case rc of
              Inl e \<Rightarrow> r = Inl e \<and> activeExecutions s' = activeExecutions s \<and> emitted s' = emitted s
            | Inr created \<Rightarrow>
                r = Inr () \<and> activeExecutions s' = (activeExecutions s)(sid := None) \<and>
                emitted s' = emitted s @
                  [execution_completed sid (executionSequence context) (id' created) (stats g)])"
  using assms unfolding persistAndComplete_def
proof (cases rule: thenM_cases)
  case (Throws e)
  from invoke_log[OF Throws(1)] Throws(2) show ?thesis
    by (auto intro!: exI[of _ "Inl e"])
next
  case (Continues created s1)
  from invoke_log[OF Continues(1)] Continues(2) show ?thesis
    by (auto simp: emit_def intro!: exI[of _ "Inr created"])
qed

lemma endExecution_try_cases
  [consumes 1, case_names SessionThrows CommitThrows ReportThrows WaitThrows CaptureThrows
     PersistThrows Completed]:
  assumes "endExecution_try env sid context s = (r, s')"
  obtains
    e where "r = Inl e"
      "activeExecutions s' = activeExecutions s" "emitted s' = emitted s"
      "callsSince s s' = [GetSession sid (Inl e)]"
  | session m settings e where "r = Inl e"
      "activeExecutions s' = activeExecutions s" "emitted s' = emitted s"
      "resolveCommitMode (JSON_parse env) session = (m, settings)"
      "callsSince s s' =
         [GetSession sid (Inr session),
          HandlePostPromptCommit sid (worktreePath context) settings (prompt context)
            (executionSequence context) (Inl e)]"
  | session m settings cr e A where "r = Inl e"
      "activeExecutions s' = activeExecutions s" "emitted s' = emitted s"
      "resolveCommitMode (JSON_parse env) session = (m, settings)"
      "reportCalls sid m cr (Inl e) A"
      "callsSince s s' =
         [GetSession sid (Inr session),
          HandlePostPromptCommit sid (worktreePath context) settings (prompt context)
            (executionSequence context) (Inr cr)] @ A"
  | session m settings cr e A B where "r = Inl e"
      "activeExecutions s' = activeExecutions s" "emitted s' = emitted s"
      "resolveCommitMode (JSON_parse env) session = (m, settings)"
      "reportCalls sid m cr (Inr ()) A"
      "waitCalls sid (worktreePath context) m (Inl e) B"
      "callsSince s s' =
         [GetSession sid (Inr session),
          HandlePostPromptCommit sid (worktreePath context) settings (prompt context)
            (executionSequence context) (Inr cr)] @ A @ B"
  | session m settings cr e A B C where "r = Inl e"
      "activeExecutions s' = activeExecutions s" "emitted s' = emitted s"
      "resolveCommitMode (JSON_parse env) session = (m, settings)"
      "reportCalls sid m cr (Inr ()) A"
      "waitCalls sid (worktreePath context) m (Inr ()) B"
      "captureCalls (worktreePath context) (beforeCommitHash context) (Inl e) C"
      "callsSince s s' =
         [GetSession sid (Inr session),
          HandlePostPromptCommit sid (worktreePath context) settings (prompt context)
            (executionSequence context) (Inr cr)] @ A @ B @ C"
  | session m settings cr e A B C g where "r = Inl e"
      "activeExecutions s' = activeExecutions s" "emitted s' = emitted s"
      "resolveCommitMode (JSON_parse env) session = (m, settings)"
      "reportCalls sid m cr (Inr ()) A"
      "waitCalls sid (worktreePath context) m (Inr ()) B"
      "captureCalls (worktreePath context) (beforeCommitHash context) (Inr g) C"
      "callsSince s s' =
         [GetSession sid (Inr session),
          HandlePostPromptCommit sid (worktreePath context) settings (prompt context)
            (executionSequence context) (Inr cr)] @ A @ B @ C @
         [CreateExecutionDiff (diffData sid context g) (Inl e)]"
  | session m settings cr A B C g created where "r = Inr ()"
      "activeExecutions s' = (activeExecutions s)(sid := None)"
      "emitted s' = emitted s @
         [execution_completed sid (executionSequence context) (id' created) (stats g)]"
      "resolveCommitMode (JSON_parse env) session = (m, settings)"
      "reportCalls sid m cr (Inr ()) A"
      "waitCalls sid (worktreePath context) m (Inr ()) B"
      "captureCalls (worktreePath context) (beforeCommitHash context) (Inr g) C"
      "callsSince s s' =
         [GetSession sid (Inr session),
          HandlePostPromptCommit sid (worktreePath context) settings (prompt context)
            (executionSequence context) (Inr cr)] @ A @ B @ C @
         [CreateExecutionDiff (diffData sid context g) (Inr created)]"
  using assms unfolding endExecution_try_def
proof (cases rule: thenM_cases)
  case (Throws e)
  from invoke_log[OF Throws(1)] Throws(2) show ?thesis
    by (intro that(1)[of e]) (simp_all add: callsSince_append)
next
  case getSession: (Continues session s1)
  note l1 = invoke_log[OF getSession(1)]
  obtain m settings where res: "resolveCommitMode (JSON_parse env) session = (m, settings)"
    by (cases "resolveCommitMode (JSON_parse env) session")
  from getSession(2) res
  have "thenM (invoke (HandlePostPromptCommit sid (worktreePath context) settings (prompt context)
                      (executionSequence context))
              (cm_handlePostPromptCommit env sid (worktreePath context) settings (prompt context)
                 (executionSequence context)))
       (\<lambda>commitResult.
     thenM (reportCommitResult env sid m commitResult)
       (\<lambda>_.
     thenM (awaitStructuredCommit env sid context m)
       (\<lambda>_.
     thenM (captureExecutionDiff env context)
       (\<lambda>executionDiff. persistAndComplete env sid context executionDiff)))) s1 = (r, s')"
    by simp
  then show ?thesis
  proof (cases rule: thenM_cases)
    case (Throws e)
    from invoke_log[OF Throws(1)] Throws(2) l1 res show ?thesis
      by (intro that(2)[of e session m settings]) (simp_all add: callsSince_append)
  next
    case commit: (Continues cr s2)
    note l2 = invoke_log[OF commit(1)]
    from commit(2) show ?thesis
    proof (cases rule: thenM_cases)
      case (Throws e)
      from reportCommitResult_log[OF Throws(1)] obtain A where
        "activeExecutions s' = activeExecutions s2" "emitted s' = emitted s2"
        "calls s' = calls s2 @ A" "reportCalls sid m cr (Inl e) A"
        by blast
      with Throws(2) l1 l2 res show ?thesis
        by (intro that(3)[of e session m settings cr A]) (simp_all add: callsSince_append)
    next
      case report: (Continues u3 s3)
      from reportCommitResult_log[OF report(1)] obtain A where
        l3: "activeExecutions s3 = activeExecutions s2" "emitted s3 = emitted s2"
        "calls s3 = calls s2 @ A" "reportCalls sid m cr (Inr ()) A"
        by auto
      from report(2) show ?thesis
      proof (cases rule: thenM_cases)
        case (Throws e)
        from awaitStructuredCommit_log[OF Throws(1)] obtain B where
          "activeExecutions s' = activeExecutions s3" "emitted s' = emitted s3"
          "calls s' = calls s3 @ B" "waitCalls sid (worktreePath context) m (Inl e) B"
          by blast
        with Throws(2) l1 l2 l3 res show ?thesis
          by (intro that(4)[of e session m settings cr A B]) (simp_all add: callsSince_append)
      next
        case wait: (Continues u4 s4)
        from awaitStructuredCommit_log[OF wait(1)] obtain B where
          l4: "activeExecutions s4 = activeExecutions s3" "emitted s4 = emitted s3"
          "calls s4 = calls s3 @ B" "waitCalls sid (worktreePath context) m (Inr ()) B"
          by auto
        from wait(2) show ?thesis
        proof (cases rule: thenM_cases)
          case (Throws e)
          from captureExecutionDiff_log[OF Throws(1)] obtain C where
            "activeExecutions s' = activeExecutions s4" "emitted s' = emitted s4"
            "calls s' = calls s4 @ C"
            "captureCalls (worktreePath context) (beforeCommitHash context) (Inl e) C"
            by blast
          with Throws(2) l1 l2 l3 l4 res show ?thesis
            by (intro that(5)[of e session m settings cr A B C]) (simp_all add: callsSince_append)
        next
          case capture: (Continues g s5)
          from captureExecutionDiff_log[OF capture(1)] obtain C where
            l5: "activeExecutions s5 = activeExecutions s4" "emitted s5 = emitted s4"
            "calls s5 = calls s4 @ C"
            "captureCalls (worktreePath context) (beforeCommitHash context) (Inr g) C"
            by blast
          from persistAndComplete_log[OF capture(2)] obtain rc where
            l6: "calls s' = calls s5 @ [CreateExecutionDiff (diffData sid context g) rc]" and
            out: "case rc of
              Inl e \<Rightarrow> r = Inl e \<and> activeExecutions s' = activeExecutions s5 \<and> emitted s' = emitted s5
            | Inr created \<Rightarrow>
                r = Inr () \<and> activeExecutions s' = (activeExecutions s5)(sid := None) \<and>
                emitted s' = emitted s5 @
                  [execution_completed sid (executionSequence context) (id' created) (stats g)]"
            by blast
          show ?thesis
          proof (cases rc)
            case (Inl e)
            with out l1 l2 l3 l4 l5 l6 res show ?thesis
              by (intro that(6)[of e session m settings cr A B g C])
                (simp_all add: callsSince_append)
          next
            case (Inr created)
            with out l1 l2 l3 l4 l5 l6 res show ?thesis
              by (intro that(7)[of created g session m settings cr A B C])
                (simp_all add: callsSince_append)
          qed
        qed
      qed
    qed
  qed
qed

lemma endExecution_active:
  assumes "activeExecutions s sid = Some context" and "endExecution env sid s = (r, s')"
  obtains s2 where "endExecution_try env sid context s = (r, s2)"
    "callsSince s s' = callsSince s s2" "emitted s' = emitted s2"
    "activeExecutions s' = (activeExecutions s2)(sid := None)"
proof -
  obtain r2 s2 where run: "endExecution_try env sid context s = (r2, s2)"
    by (cases "endExecution_try env sid context s")
  show thesis
  proof (cases r2)
    case (Inl e)
    with assms run show thesis
      by (intro that[of s2]) (auto simp: endExecution_def callsSince_def)
  next
    case (Inr u)
    with run have "activeExecutions s2 = (activeExecutions s)(sid := None)"
      by (cases rule: endExecution_try_cases) auto
    with Inr assms run show thesis
      by (intro that[of s2]) (auto simp: endExecution_def)
  qed
qed

lemma endExecution_registry:
  assumes "endExecution env sid s = (r, s')"
  shows "activeExecutions s' = (activeExecutions s)(sid := None)"
proof (cases "activeExecutions s sid")
  case None
  with assms show ?thesis by (auto simp: endExecution_def)
next
  case (Some ctx)
  from Some assms obtain s2 where run: "endExecution_try env sid ctx s = (r, s2)" and
    reg: "activeExecutions s' = (activeExecutions s2)(sid := None)"
    by (rule endExecution_active)
  from run reg show ?thesis
    by (cases rule: endExecution_try_cases) auto
qed

lemma startExecution_registry:
  assumes "startExecution env sid path marker prmpt s = (r, s')"
  shows "case r of
           Inl e \<Rightarrow> activeExecutions s' = activeExecutions s \<and> emitted s' = emitted s
         | Inr u \<Rightarrow>
             (\<exists>seq hash.
                callsSince s s' =
                  [GetNextExecutionSequence sid (Inr seq), GetCurrentCommitHash path (Inr hash)] \<and>
                emitted s' = emitted s @ [execution_started sid seq] \<and>
                activeExecutions s' = (activeExecutions s)(sid \<mapsto>
                  \<lparr>sessionId = sid, worktreePath = path, promptMarkerId = marker,
                   beforeCommitHash = hash, executionSequence = seq, prompt = prmpt\<rparr>))"
  using assms unfolding startExecution_def
proof (cases rule: thenM_cases)
  case (Throws e)
  with invoke_log[OF Throws(1)] show ?thesis by simp
next
  case (Continues seq s1)
  note l1 = invoke_log[OF Continues(1)]
  from Continues(2) show ?thesis
  proof (cases rule: thenM_cases)
    case (Throws e)
    with invoke_log[OF Throws(1)] l1 show ?thesis by simp
  next
    case (Continues hash s2)
    with invoke_log[OF Continues(1)] l1 show ?thesis
      by (auto simp: emit_def callsSince_def)
  qed
qed

lemma reachable_keyed:
  "reachable env s \<Longrightarrow> activeExecutions s k = Some c \<Longrightarrow> sessionId c = k"
proof (induction arbitrary: k c rule: reachable.induct)
  case (fresh w)
  then show ?case by (simp add: newTracker_def)
next
  case (started s sid path marker prmpt r s')
  from startExecution_registry[OF started(2)] started(1,3,4) show ?case
    by (cases r) (auto split: if_splits)
next
  case (ended s sid r s')
  from endExecution_registry[OF ended(2)] ended(1,3,4) show ?case
    by (auto split: if_splits)
next
  case (cancelled s sid)
  then show ?case
    by (auto simp: cancelExecution_def emit_def split: option.splits if_splits)
next
  case (combined s sid ids g s')
  from combined(2) have "activeExecutions s' = activeExecutions s"
    unfolding getCombinedDiff_def
    by (cases rule: thenM_cases) (auto dest!: invoke_log)
  with combined show ?case by simp
next
  case (outside s w)
  then show ?case by simp
qed

lemma demoStarted_eq:
  "demoStarted =
     \<lparr>activeExecutions = [''s1'' \<mapsto> demoContext], emitted = [execution_started ''s1'' 1],
      calls = [GetNextExecutionSequence ''s1'' (Inr 1), GetCurrentCommitHash ''/wt'' (Inr ''a1'')],
      world = (demoWorld None [])\<lparr>w_seq := 1\<rparr>\<rparr>"
  by (simp add: demoStarted_def startExecution_def thenM_def invoke_def emit_def demoEnv_def
      demoHash_def demoWorld_def newTracker_def demoContext_def)

lemma demoStarted_run:
  "startExecution demoEnv ''s1'' ''/wt'' (Some 7) (Some ''fix the bug'')
     (newTracker (demoWorld None [])) = (Inr (), demoStarted)"
  by (simp add: demoStarted_def startExecution_def thenM_def invoke_def emit_def demoEnv_def
      demoHash_def demoWorld_def newTracker_def demoContext_def)

lemma demoGone_run:
  "endExecution demoEnv ''s1'' demoGone =
     (Inl (Thrown ''not a git repository''),
      \<lparr>activeExecutions = Map.empty, emitted = [],
       calls = [GetSession ''s1'' (Inr None),
                HandlePostPromptCommit ''s1'' ''/wt'' defaultSettings (Some ''fix the bug'') 1
                  (Inr \<lparr>success = True, commitHash = None, error = None\<rparr>),
                AddSessionOutput ''s1'' (commitSuccessMessage None) (Inr ()),
                GetCurrentCommitHash ''/wt'' (Inl (Thrown ''not a git repository''))],
       world = (demoWorld None [])\<lparr>w_head := []\<rparr>\<rparr>)"
  by (simp add: demoGone_def demoActive_def newTracker_def demoWorld_def demoContext_def
      endExecution_def endExecution_try_def thenM_def invoke_def demoEnv_def
      resolveCommitMode_def defaultSettings_def demoCommit_def reportCommitResult_def
      addOutput_def awaitStructuredCommit_def returnM_def captureExecutionDiff_def demoHash_def)

lemma map_of_fold_update:
  "map_of (fold (\<lambda>(k, x). AList.update k x) kvs target) k' =
     (map_of target ++ map_of (rev kvs)) k'"
  by (induction kvs arbitrary: target)
    (auto simp: update_conv' map_add_def split: option.splits)

lemma map_of_spread:
  "map_of (spread target v) k = (map_of target ++ map_of (rev (ownProperties v))) k"
  by (simp add: spread_def map_of_fold_update)

lemma map_of_setMode: "map_of (setMode m al) = (map_of al)(''mode'' \<mapsto> JStr (modeName m))"
  by (simp add: setMode_def update_conv')

lemma reportCalls_kinds: "reportCalls sid m cr r A \<Longrightarrow> \<forall>c \<in> set A. isOutput c"
  by (auto simp: reportCalls_def split: if_splits)

lemma waitCalls_kinds: "waitCalls sid path m r B \<Longrightarrow> \<forall>c \<in> set B. isWait c \<or> isOutput c"
  by (auto simp: waitCalls_def split: if_splits sum.splits)

lemma captureCalls_kinds:
  "captureCalls path h r C \<Longrightarrow> \<forall>c \<in> set C. isHashRead c \<or> isCapture c"
  by (auto simp: captureCalls_def split: if_splits sum.splits)

lemma demoPayload_neq: "demoPayload \<noteq> []" "''{}'' \<noteq> demoPayload" "''{oops'' \<noteq> demoPayload"
  by (simp_all add: demoPayload_def)


subsection \<open>The shape of the phases\<close>














subsection \<open>Runs in the concrete world\<close>









section \<open>The claims\<close>

subsection \<open>Calls without an active context\<close>

text \<open>
  Claim C9. When the registry holds no context for the session, \<^verbatim>\<open>endExecution\<close> returns
  without an error and \<^verbatim>\<open>cancelExecution\<close> returns, and both leave the whole tracker as it
  was: no context is removed, no event is emitted, no collaborator is called (so no record is
  persisted), and the world is untouched.
\<close>

theorem no_context_is_noop:
  "activeExecutions s sid = None \<Longrightarrow>
     endExecution env sid s = (Inr (), s) \<and> cancelExecution sid s = s"
  by (simp add: endExecution_def cancelExecution_def)

theorem no_context_is_noop_witness:
  "activeExecutions (newTracker (demoWorld None [])) ''s1'' = None \<and>
   endExecution demoEnv ''s1'' (newTracker (demoWorld None [])) =
     (Inr (), newTracker (demoWorld None [])) \<and>
   cancelExecution ''s1'' (newTracker (demoWorld None [])) = newTracker (demoWorld None [])"
proof -
  have h: "activeExecutions (newTracker (demoWorld None [])) ''s1'' = None"
    by (simp add: newTracker_def)
  from no_context_is_noop[OF h, of demoEnv] h show ?thesis by simp
qed

subsection \<open>startExecution\<close>

text \<open>
  Claim C5. If the sequence number is allocated and the hash of the worktree is then read,
  \<^verbatim>\<open>startExecution\<close> returns, the stored context has that hash as its \<^verbatim>\<open>beforeCommitHash\<close>
  (and that sequence number), and \<^verbatim>\<open>execution-started\<close> with the session id and the sequence
  number is emitted. If the allocation throws, or the allocation returns and the hash read
  throws, the same error leaves \<^verbatim>\<open>startExecution\<close>, the registry is unchanged and nothing is
  emitted.
\<close>

theorem startExecution_stores_or_propagates:
  "(\<forall>seq w1 hash w2.
      sm_getNextExecutionSequence env sid (world s) = (Inr seq, w1) \<and>
      gdm_getCurrentCommitHash env path w1 = (Inr hash, w2) \<longrightarrow>
      (\<exists>s'. startExecution env sid path marker prmpt s = (Inr (), s') \<and>
            activeExecutions s' sid =
              Some \<lparr>sessionId = sid, worktreePath = path, promptMarkerId = marker,
                    beforeCommitHash = hash, executionSequence = seq, prompt = prmpt\<rparr> \<and>
            emitted s' = emitted s @ [execution_started sid seq])) \<and>
   (\<forall>e w1.
      sm_getNextExecutionSequence env sid (world s) = (Inl e, w1) \<longrightarrow>
      (\<exists>s'. startExecution env sid path marker prmpt s = (Inl e, s') \<and>
            activeExecutions s' = activeExecutions s \<and> emitted s' = emitted s)) \<and>
   (\<forall>seq w1 e w2.
      sm_getNextExecutionSequence env sid (world s) = (Inr seq, w1) \<and>
      gdm_getCurrentCommitHash env path w1 = (Inl e, w2) \<longrightarrow>
      (\<exists>s'. startExecution env sid path marker prmpt s = (Inl e, s') \<and>
            activeExecutions s' = activeExecutions s \<and> emitted s' = emitted s))"
  by (simp add: startExecution_def thenM_def invoke_def emit_def)

theorem startExecution_stores_or_propagates_witness:
  "(\<exists>s'. startExecution demoEnv ''s1'' ''/wt'' (Some 7) (Some ''fix the bug'')
            (newTracker (demoWorld None [])) = (Inr (), s') \<and>
          activeExecutions s' ''s1'' = Some demoContext \<and>
          emitted s' = [execution_started ''s1'' 1]) \<and>
   (\<exists>s'. startExecution demoEnv ''s1'' ''/wt'' (Some 7) (Some ''fix the bug'')
            (newTracker ((demoWorld None [])\<lparr>w_head := []\<rparr>)) =
            (Inl (Thrown ''not a git repository''), s') \<and>
          activeExecutions s' = Map.empty \<and> emitted s' = [])"
  using
    startExecution_stores_or_propagates[of demoEnv "''s1''" "newTracker (demoWorld None [])"
      "''/wt''" "Some 7" "Some ''fix the bug''"]
    startExecution_stores_or_propagates[of demoEnv "''s1''"
      "newTracker ((demoWorld None [])\<lparr>w_head := []\<rparr>)" "''/wt''" "Some 7" "Some ''fix the bug''"]
  by (simp add: demoEnv_def demoHash_def demoWorld_def newTracker_def demoContext_def)

subsection \<open>The registry\<close>

text \<open>
  Claim C8. The registry is a map from session ids, so it holds at most one context for a
  key; in every tracker that calls of the methods can produce, a context is stored under its
  own \<^verbatim>\<open>sessionId\<close>, so no two stored contexts belong to the same session. When
  \<^verbatim>\<open>startExecution\<close> returns for a session that already has a context, the registry holds for
  that session exactly the context built from the arguments, the newly allocated sequence
  number and the newly read hash; nothing of the old context is left, and the other sessions
  keep their contexts.
\<close>

theorem one_context_per_session:
  "(reachable env s \<longrightarrow>
      (\<forall>k c. activeExecutions s k = Some c \<longrightarrow> sessionId c = k) \<and>
      (\<forall>k1 c1 k2 c2. activeExecutions s k1 = Some c1 \<and> activeExecutions s k2 = Some c2 \<and>
          sessionId c1 = sessionId c2 \<longrightarrow> k1 = k2 \<and> c1 = c2)) \<and>
   (activeExecutions s sid = Some old \<and>
    startExecution env sid path marker prmpt s = (Inr (), s') \<longrightarrow>
      (\<exists>seq hash.
         callsSince s s' =
           [GetNextExecutionSequence sid (Inr seq), GetCurrentCommitHash path (Inr hash)] \<and>
         activeExecutions s' = (activeExecutions s)(sid \<mapsto>
           \<lparr>sessionId = sid, worktreePath = path, promptMarkerId = marker,
            beforeCommitHash = hash, executionSequence = seq, prompt = prmpt\<rparr>)))"
proof (intro conjI impI)
  assume "reachable env s"
  then show "\<forall>k c. activeExecutions s k = Some c \<longrightarrow> sessionId c = k"
    by (blast dest: reachable_keyed)
  with \<open>reachable env s\<close>
  show "\<forall>k1 c1 k2 c2. activeExecutions s k1 = Some c1 \<and> activeExecutions s k2 = Some c2 \<and>
          sessionId c1 = sessionId c2 \<longrightarrow> k1 = k2 \<and> c1 = c2"
    by (metis option.inject)
next
  assume "activeExecutions s sid = Some old \<and>
    startExecution env sid path marker prmpt s = (Inr (), s')"
  then have "startExecution env sid path marker prmpt s = (Inr (), s')" by simp
  from startExecution_registry[OF this]
  show "\<exists>seq hash.
         callsSince s s' =
           [GetNextExecutionSequence sid (Inr seq), GetCurrentCommitHash path (Inr hash)] \<and>
         activeExecutions s' = (activeExecutions s)(sid \<mapsto>
           \<lparr>sessionId = sid, worktreePath = path, promptMarkerId = marker,
            beforeCommitHash = hash, executionSequence = seq, prompt = prmpt\<rparr>)"
    by auto
qed

theorem one_context_per_session_witness:
  "reachable demoEnv demoStarted \<and>
   activeExecutions demoStarted ''s1'' = Some demoContext \<and>
   sessionId demoContext = ''s1'' \<and>
   (\<exists>s'. startExecution demoEnv ''s1'' ''/other'' None None demoStarted = (Inr (), s') \<and>
         activeExecutions s' ''s1'' =
           Some \<lparr>sessionId = ''s1'', worktreePath = ''/other'', promptMarkerId = None,
                 beforeCommitHash = ''a1'', executionSequence = 2, prompt = None\<rparr>)"
proof -
  have r: "reachable demoEnv demoStarted"
    by (rule reachable.started[OF reachable.fresh demoStarted_run])
  have a: "activeExecutions demoStarted ''s1'' = Some demoContext"
    by (simp add: demoStarted_eq)
  obtain s' where
    run: "startExecution demoEnv ''s1'' ''/other'' None None demoStarted = (Inr (), s')"
    by (simp add: demoStarted_eq startExecution_def thenM_def invoke_def emit_def demoEnv_def
      demoHash_def demoWorld_def)
  from one_context_per_session[of demoEnv demoStarted "''s1''" demoContext "''/other''" None None s']
    r a run
  have k: "sessionId demoContext = ''s1''" and
    "\<exists>seq hash.
       callsSince demoStarted s' =
         [GetNextExecutionSequence ''s1'' (Inr seq), GetCurrentCommitHash ''/other'' (Inr hash)] \<and>
       activeExecutions s' = (activeExecutions demoStarted)(''s1'' \<mapsto>
           \<lparr>sessionId = ''s1'', worktreePath = ''/other'', promptMarkerId = None,
            beforeCommitHash = hash, executionSequence = seq, prompt = None\<rparr>)"
    by blast+
  then obtain seq hash where
    c: "callsSince demoStarted s' =
         [GetNextExecutionSequence ''s1'' (Inr seq), GetCurrentCommitHash ''/other'' (Inr hash)]" and
    m: "activeExecutions s' = (activeExecutions demoStarted)(''s1'' \<mapsto>
           \<lparr>sessionId = ''s1'', worktreePath = ''/other'', promptMarkerId = None,
            beforeCommitHash = hash, executionSequence = seq, prompt = None\<rparr>)"
    by blast
  from run have "callsSince demoStarted s' =
     [GetNextExecutionSequence ''s1'' (Inr 2), GetCurrentCommitHash ''/other'' (Inr ''a1'')]"
    by (auto simp: demoStarted_eq startExecution_def thenM_def invoke_def emit_def demoEnv_def
      demoHash_def demoWorld_def callsSince_def)
  with c have "seq = 2" "hash = ''a1''" by simp_all
  with m r a k run show ?thesis by simp
qed

text \<open>
  Claim C2. \<^verbatim>\<open>isTracking\<close> is false in a new tracker, true after \<^verbatim>\<open>startExecution\<close> has
  returned without an error, false after \<^verbatim>\<open>endExecution\<close> whatever its outcome \<open>r\<close> (also a
  thrown error), and false after \<^verbatim>\<open>cancelExecution\<close>.
\<close>

theorem isTracking_lifecycle:
  "\<not> isTracking sid (newTracker w) \<and>
   (startExecution env sid path marker prmpt s = (Inr (), s1) \<longrightarrow> isTracking sid s1) \<and>
   (endExecution env sid s = (r, s2) \<longrightarrow> \<not> isTracking sid s2) \<and>
   \<not> isTracking sid (cancelExecution sid s)"
proof (intro conjI impI)
  show "\<not> isTracking sid (newTracker w)"
    by (simp add: isTracking_def newTracker_def)
next
  assume "startExecution env sid path marker prmpt s = (Inr (), s1)"
  from startExecution_registry[OF this] show "isTracking sid s1"
    by (auto simp: isTracking_def)
next
  assume "endExecution env sid s = (r, s2)"
  from endExecution_registry[OF this] show "\<not> isTracking sid s2"
    by (simp add: isTracking_def)
next
  show "\<not> isTracking sid (cancelExecution sid s)"
    by (simp add: isTracking_def cancelExecution_def emit_def split: option.splits)
qed

theorem isTracking_lifecycle_witness:
  "\<not> isTracking ''s1'' (newTracker (demoWorld None [])) \<and>
   startExecution demoEnv ''s1'' ''/wt'' (Some 7) (Some ''fix the bug'')
     (newTracker (demoWorld None [])) = (Inr (), demoStarted) \<and>
   isTracking ''s1'' demoStarted \<and>
   fst (endExecution demoEnv ''s1'' demoGone) = Inl (Thrown ''not a git repository'') \<and>
   \<not> isTracking ''s1'' (snd (endExecution demoEnv ''s1'' demoGone)) \<and>
   \<not> isTracking ''s1'' (cancelExecution ''s1'' demoStarted)"
  using
    isTracking_lifecycle[of "''s1''" "demoWorld None []" demoEnv "''/wt''" "Some 7"
      "Some ''fix the bug''" "newTracker (demoWorld None [])" demoStarted
      "Inl (Thrown ''not a git repository'')" "snd (endExecution demoEnv ''s1'' demoGone)"]
    isTracking_lifecycle[of "''s1''" "demoWorld None []" demoEnv "''/wt''" "Some 7"
      "Some ''fix the bug''" demoGone demoStarted
      "Inl (Thrown ''not a git repository'')" "snd (endExecution demoEnv ''s1'' demoGone)"]
    isTracking_lifecycle[of "''s1''" "demoWorld None []" demoEnv "''/wt''" "Some 7"
      "Some ''fix the bug''" demoStarted demoStarted
      "Inl (Thrown ''not a git repository'')" "snd (endExecution demoEnv ''s1'' demoGone)"]
    demoStarted_run demoGone_run
  by simp

subsection \<open>getCombinedDiff\<close>



subsection \<open>Commit mode resolution\<close>

text \<open>
  Claim C3. An explicit \<^verbatim>\<open>commitMode\<close> of the session is the resolved mode whatever
  \<^verbatim>\<open>autoCommit\<close> says, and the \<open>mode\<close> of the settings is that mode; if the session's
  \<^verbatim>\<open>commitModeSettings\<close> parses, every other property of the settings is the parsed one where
  there is one and the default otherwise; if it does not parse (or is absent), the settings
  are the defaults with the explicit mode. Without an explicit mode, \<^verbatim>\<open>autoCommit\<close> true
  gives checkpoint and false gives disabled; without either, and without a session, the
  result is checkpoint with the prefix \<open>checkpoint: \<close>. Resolution is a total function, so
  nothing is thrown; in every run of \<^verbatim>\<open>endExecution\<close> in which the session was fetched,
  \<^verbatim>\<open>handlePostPromptCommit\<close> is called next with the resolved settings, also after a payload
  that does not parse.
\<close>

theorem commit_mode_precedence:
  "(commitMode x = Some m \<longrightarrow>
      fst (resolveCommitMode parse (Some x)) = m \<and>
      map_of (snd (resolveCommitMode parse (Some x))) ''mode'' = Some (JStr (modeName m)) \<and>
      (\<forall>payload parsed. commitModeSettings x = Some payload \<and> payload \<noteq> [] \<and> parse payload = Some parsed \<longrightarrow>
         (\<forall>k. k \<noteq> ''mode'' \<longrightarrow>
            map_of (snd (resolveCommitMode parse (Some x))) k =
              (map_of defaultSettings ++ map_of (rev (ownProperties parsed))) k)) \<and>
      (\<forall>payload. commitModeSettings x = Some payload \<and> parse payload = None \<longrightarrow>
         snd (resolveCommitMode parse (Some x)) =
           [(''mode'', JStr (modeName m)), (''checkpointPrefix'', JStr ''checkpoint: '')]) \<and>
      (commitModeSettings x = None \<longrightarrow>
         snd (resolveCommitMode parse (Some x)) =
           [(''mode'', JStr (modeName m)), (''checkpointPrefix'', JStr ''checkpoint: '')])) \<and>
   (commitMode x = None \<longrightarrow>
      (autoCommit x = Some True \<longrightarrow>
         resolveCommitMode parse (Some x) =
           (Checkpoint, [(''mode'', JStr ''checkpoint''), (''checkpointPrefix'', JStr ''checkpoint: '')])) \<and>
      (autoCommit x = Some False \<longrightarrow>
         resolveCommitMode parse (Some x) =
           (Disabled, [(''mode'', JStr ''disabled''), (''checkpointPrefix'', JStr ''checkpoint: '')])) \<and>
      (autoCommit x = None \<longrightarrow>
         resolveCommitMode parse (Some x) =
           (Checkpoint, [(''mode'', JStr ''checkpoint''), (''checkpointPrefix'', JStr ''checkpoint: '')]))) \<and>
   resolveCommitMode parse None =
     (Checkpoint, [(''mode'', JStr ''checkpoint''), (''checkpointPrefix'', JStr ''checkpoint: '')]) \<and>
   (activeExecutions s sid = Some ctx \<and> endExecution env sid s = (r, s') \<longrightarrow>
      (\<forall>session. GetSession sid (Inr session) \<in> set (callsSince s s') \<longrightarrow>
         (\<exists>rc. HandlePostPromptCommit sid (worktreePath ctx)
                 (snd (resolveCommitMode (JSON_parse env) session)) (prompt ctx)
                 (executionSequence ctx) rc \<in> set (callsSince s s'))))"
proof (intro conjI impI allI)
  assume m: "commitMode x = Some m"
  show "fst (resolveCommitMode parse (Some x)) = m"
    using m by (simp add: resolveCommitMode_def Let_def split: option.splits)
  show "map_of (snd (resolveCommitMode parse (Some x))) ''mode'' = Some (JStr (modeName m))"
    using m by (simp add: resolveCommitMode_def Let_def map_of_setMode split: option.splits)
  show "snd (resolveCommitMode parse (Some x)) =
           [(''mode'', JStr (modeName m)), (''checkpointPrefix'', JStr ''checkpoint: '')]"
    if "commitModeSettings x = Some payload \<and> parse payload = None" for payload
    using m that by (simp add: resolveCommitMode_def Let_def setMode_def defaultSettings_def)
  show "snd (resolveCommitMode parse (Some x)) =
           [(''mode'', JStr (modeName m)), (''checkpointPrefix'', JStr ''checkpoint: '')]"
    if "commitModeSettings x = None"
    using m that by (simp add: resolveCommitMode_def Let_def setMode_def defaultSettings_def)
  show "map_of (snd (resolveCommitMode parse (Some x))) k =
              (map_of defaultSettings ++ map_of (rev (ownProperties parsed))) k"
    if "commitModeSettings x = Some payload \<and> payload \<noteq> [] \<and> parse payload = Some parsed" "k \<noteq> ''mode''"
    for payload parsed k
    using m that
    by (simp add: resolveCommitMode_def Let_def map_of_setMode map_of_spread map_add_def
        split: option.splits)
next
  assume "commitMode x = None" "autoCommit x = Some True"
  then show "resolveCommitMode parse (Some x) =
           (Checkpoint, [(''mode'', JStr ''checkpoint''), (''checkpointPrefix'', JStr ''checkpoint: '')])"
    by (simp add: resolveCommitMode_def setMode_def defaultSettings_def)
next
  assume "commitMode x = None" "autoCommit x = Some False"
  then show "resolveCommitMode parse (Some x) =
           (Disabled, [(''mode'', JStr ''disabled''), (''checkpointPrefix'', JStr ''checkpoint: '')])"
    by (simp add: resolveCommitMode_def setMode_def defaultSettings_def)
next
  assume "commitMode x = None" "autoCommit x = None"
  then show "resolveCommitMode parse (Some x) =
           (Checkpoint, [(''mode'', JStr ''checkpoint''), (''checkpointPrefix'', JStr ''checkpoint: '')])"
    by (simp add: resolveCommitMode_def setMode_def defaultSettings_def)
next
  show "resolveCommitMode parse None =
     (Checkpoint, [(''mode'', JStr ''checkpoint''), (''checkpointPrefix'', JStr ''checkpoint: '')])"
    by (simp add: resolveCommitMode_def setMode_def defaultSettings_def)
next
  fix session
  assume a: "activeExecutions s sid = Some ctx \<and> endExecution env sid s = (r, s')" and
    got: "GetSession sid (Inr session) \<in> set (callsSince s s')"
  from a obtain s2 where run: "endExecution_try env sid ctx s = (r, s2)" and
    c: "callsSince s s' = callsSince s s2"
    by (auto elim: endExecution_active)
  from run have "\<exists>rc. HandlePostPromptCommit sid (worktreePath ctx)
                 (snd (resolveCommitMode (JSON_parse env) session)) (prompt ctx)
                 (executionSequence ctx) rc \<in> set (callsSince s s2)"
  proof (cases rule: endExecution_try_cases)
    case (SessionThrows e)
    with got c show ?thesis by simp
  next
    case (CommitThrows session' m settings e)
    with got c show ?thesis by auto
  next
    case (ReportThrows session' m settings cr e A)
    with got c reportCalls_kinds[OF ReportThrows(5)] show ?thesis by auto
  next
    case (WaitThrows session' m settings cr e A B)
    with got c reportCalls_kinds[OF WaitThrows(5)] waitCalls_kinds[OF WaitThrows(6)]
    show ?thesis by auto
  next
    case (CaptureThrows session' m settings cr e A B C)
    with got c reportCalls_kinds[OF CaptureThrows(5)] waitCalls_kinds[OF CaptureThrows(6)]
      captureCalls_kinds[OF CaptureThrows(7)]
    show ?thesis by auto
  next
    case (PersistThrows session' m settings cr e A B C g)
    with got c reportCalls_kinds[OF PersistThrows(5)] waitCalls_kinds[OF PersistThrows(6)]
      captureCalls_kinds[OF PersistThrows(7)]
    show ?thesis by auto
  next
    case (Completed session' m settings cr A B C g created)
    with got c reportCalls_kinds[OF Completed(5)] waitCalls_kinds[OF Completed(6)]
      captureCalls_kinds[OF Completed(7)]
    show ?thesis by auto
  qed
  with c show "\<exists>rc. HandlePostPromptCommit sid (worktreePath ctx)
                 (snd (resolveCommitMode (JSON_parse env) session)) (prompt ctx)
                 (executionSequence ctx) rc \<in> set (callsSince s s')"
    by simp
qed

theorem commit_mode_precedence_witness:
  "resolveCommitMode demoParse
     (Some \<lparr>commitMode = Some Structured, commitModeSettings = Some demoPayload,
            autoCommit = Some False\<rparr>) =
     (Structured, [(''mode'', JStr ''structured''), (''checkpointPrefix'', JStr ''wip: '')]) \<and>
   resolveCommitMode demoParse
     (Some \<lparr>commitMode = Some Structured, commitModeSettings = Some ''{oops'',
            autoCommit = Some False\<rparr>) =
     (Structured, [(''mode'', JStr ''structured''), (''checkpointPrefix'', JStr ''checkpoint: '')]) \<and>
   resolveCommitMode demoParse
     (Some \<lparr>commitMode = None, commitModeSettings = Some demoPayload, autoCommit = Some False\<rparr>) =
     (Disabled, [(''mode'', JStr ''disabled''), (''checkpointPrefix'', JStr ''checkpoint: '')]) \<and>
   (\<exists>rc. HandlePostPromptCommit ''s1'' ''/wt''
           [(''mode'', JStr ''structured''), (''checkpointPrefix'', JStr ''checkpoint: '')]
           (Some ''fix the bug'') 1 rc
         \<in> set (calls (snd (endExecution demoEnv ''s1'' demoMalformed))))"
proof -
  let ?good = "\<lparr>commitMode = Some Structured, commitModeSettings = Some demoPayload,
                 autoCommit = Some False\<rparr>"
  let ?bad = "\<lparr>commitMode = Some Structured, commitModeSettings = Some ''{oops'',
                autoCommit = Some False\<rparr>"
  let ?legacy = "\<lparr>commitMode = None, commitModeSettings = Some demoPayload,
                   autoCommit = Some False\<rparr>"
  let ?end = "endExecution demoEnv ''s1'' demoMalformed"
  have active: "activeExecutions demoMalformed ''s1'' = Some demoContext"
    by (simp add: demoMalformed_def demoActive_def)
  have session: "GetSession ''s1'' (Inr (Some ?bad)) \<in> set (callsSince demoMalformed (snd ?end))"
    by (simp add: demoMalformed_def demoActive_def newTracker_def demoWorld_def demoContext_def
      endExecution_def endExecution_try_def thenM_def invoke_def demoEnv_def callsSince_def
      resolveCommitMode_def defaultSettings_def setMode_def demoParse_def demoPayload_def
      demoCommit_def reportCommitResult_def
      addOutput_def awaitStructuredCommit_def demoWait_def returnM_def captureExecutionDiff_def
      demoHash_def persistAndComplete_def emit_def)
  have parse: "demoParse ''{oops'' = None" "demoParse demoPayload = Some (JObj [(''checkpointPrefix'', JStr ''wip: '')])"
    by (simp_all add: demoParse_def demoPayload_def)
  have cs: "callsSince demoMalformed s = calls s" for s
    by (simp add: callsSince_def demoMalformed_def demoActive_def newTracker_def)
  note good = commit_mode_precedence[of ?good Structured demoParse demoMalformed "''s1''" demoContext
      demoEnv "fst ?end" "snd ?end"]
  note bad = commit_mode_precedence[of ?bad Structured demoParse demoMalformed "''s1''" demoContext
      demoEnv "fst ?end" "snd ?end"]
  note legacy = commit_mode_precedence[of ?legacy Structured demoParse demoMalformed "''s1''" demoContext
      demoEnv "fst ?end" "snd ?end"]
  have 1: "fst (resolveCommitMode demoParse (Some ?good)) = Structured"
    using good by simp
  have 2: "snd (resolveCommitMode demoParse (Some ?good)) =
      [(''mode'', JStr ''structured''), (''checkpointPrefix'', JStr ''wip: '')]"
    by (simp add: resolveCommitMode_def parse demoPayload_neq setMode_def defaultSettings_def spread_def)
  have 3: "resolveCommitMode demoParse (Some ?bad) =
     (Structured, [(''mode'', JStr ''structured''), (''checkpointPrefix'', JStr ''checkpoint: '')])"
    using bad parse by (simp add: prod_eq_iff)
  have 4: "resolveCommitMode demoParse (Some ?legacy) =
     (Disabled, [(''mode'', JStr ''disabled''), (''checkpointPrefix'', JStr ''checkpoint: '')])"
    using legacy by simp
  have jp: "JSON_parse demoEnv = demoParse"
    by (simp add: demoEnv_def)
  from bad[THEN conjunct2, THEN conjunct2, THEN conjunct2] active session
  have "\<exists>rc. HandlePostPromptCommit ''s1'' (worktreePath demoContext)
                 (snd (resolveCommitMode (JSON_parse demoEnv) (Some ?bad))) (prompt demoContext)
                 (executionSequence demoContext) rc \<in> set (callsSince demoMalformed (snd ?end))"
    by simp
  then have 5: "\<exists>rc. HandlePostPromptCommit ''s1'' ''/wt''
           [(''mode'', JStr ''structured''), (''checkpointPrefix'', JStr ''checkpoint: '')]
           (Some ''fix the bug'') 1 rc
         \<in> set (calls (snd ?end))"
    by (simp add: jp 3 cs demoContext_def)
  from 1 2 3 4 5 show ?thesis by (simp add: prod_eq_iff)
qed


subsection \<open>endExecution: the persisted record and the completion event\<close>




subsection \<open>endExecution: the diff capture\<close>



subsection \<open>endExecution: the structured wait\<close>



subsection \<open>endExecution: the output messages\<close>



end
